theory Spec2Isabelle
  imports Main "HOL-Library.Word"
begin

section \<open>The AgoraX chat server (api/index.ts) as a state machine\<close>

text \<open>
  The server keeps two tables, \<open>onlineUsers\<close> and \<open>rooms\<close>, and reacts to six
  events of a socket: \<open>connection\<close>, \<open>newUser\<close>, \<open>joinRoom\<close>, \<open>leaveRoom\<close>,
  \<open>sendMessage\<close> and \<open>disconnect\<close>. Each handler is a function from the state to
  the new state, the trace of what it did (emits, transport calls, console output,
  file and network calls) and its outcome (it returned, or an exception left it).
\<close>

subsection \<open>JavaScript values\<close>

text \<open>
  A JavaScript string is a sequence of UTF-16 code units. A field of an inbound payload is
  a string, as the handlers declare it, or is missing (\<open>undefined\<close>).
\<close>

type_synonym jsstring = "16 word list"

definition lit :: "string \<Rightarrow> jsstring" where
  "lit s = map (\<lambda>c. of_nat (of_char c)) s"

datatype jsval = Undefined | Str jsstring

text \<open>\<open>!v\<close> is false exactly for a non-empty string.\<close>

fun truthy :: "jsval \<Rightarrow> bool" where
  "truthy Undefined = False"
| "truthy (Str s) = (s \<noteq> [])"

text \<open>\<open>String(v)\<close>, also what a template literal and a property access make of \<open>v\<close>.\<close>

fun String :: "jsval \<Rightarrow> jsstring" where
  "String Undefined = lit ''undefined''"
| "String (Str s) = s"

text \<open>\<open>a || b\<close> for a string default \<open>b\<close>.\<close>

definition or_else :: "jsval \<Rightarrow> jsstring \<Rightarrow> jsstring" where
  "or_else v d = (if truthy v then String v else d)"

text \<open>
  What a joinRoom or sendMessage event carries. Both handlers destructure it in their
  parameter list, \<open>({ roomId, username, email, userId })\<close> and
  \<open>({ roomId, user, text })\<close>: when the event carries nothing (\<open>undefined\<close>) or
  \<open>null\<close> this is a TypeError before the body starts; from any other value it
  reads the fields, each a string or missing.
\<close>

datatype 'a payload = Nullish | Fields 'a

subsection \<open>The two tables\<close>

record socket_ref =
  socketId :: jsstring

record presence = socket_ref +
  userId :: jsval

record member = socket_ref +
  username :: jsval

text \<open>
  \<open>rooms\<close> is a plain object used as a dictionary: its own properties, in the order
  they were created, each holding an array of members. Reading a property that the
  object does not own falls through to \<open>Object.prototype\<close>.
\<close>

type_synonym rooms = "(jsstring \<times> member list) list"

record state =
  onlineUsers :: "presence list"
  rooms :: rooms

definition init :: state where
  "init = \<lparr>onlineUsers = [], rooms = []\<rparr>"

datatype jsprop = Absent | Array "member list" | Proto

definition Object_prototype :: "jsstring list" where
  "Object_prototype = map lit
     [''constructor'', ''__defineGetter__'', ''__defineSetter__'', ''hasOwnProperty'',
      ''__lookupGetter__'', ''__lookupSetter__'', ''isPrototypeOf'',
      ''propertyIsEnumerable'', ''toString'', ''valueOf'', ''__proto__'',
      ''toLocaleString'']"

text \<open>\<open>rooms[k]\<close>: the own property, else the inherited one, else \<open>undefined\<close>.\<close>

definition rooms_get :: "rooms \<Rightarrow> jsstring \<Rightarrow> jsprop" where
  "rooms_get rs k =
     (case map_of rs k of
        Some ms \<Rightarrow> Array ms
      | None \<Rightarrow> if k \<in> set Object_prototype then Proto else Absent)"

text \<open>\<open>rooms[k] = v\<close>: an own property keeps its place, a new one goes last.\<close>

fun rooms_set :: "jsstring \<Rightarrow> member list \<Rightarrow> rooms \<Rightarrow> rooms" where
  "rooms_set k v [] = [(k, v)]"
| "rooms_set k v (p # rs) = (if fst p = k then (k, v) # rs else p # rooms_set k v rs)"

text \<open>An array or an inherited function or object is truthy, \<open>undefined\<close> is not.\<close>

fun truthy_prop :: "jsprop \<Rightarrow> bool" where
  "truthy_prop Absent = False"
| "truthy_prop (Array ms) = True"
| "truthy_prop Proto = True"

text \<open>
  \<open>for (const roomId in rooms)\<close> visits the own keys that are array indices (canonical
  decimal numerals below \<open>2^32 - 1\<close>) in ascending numeric order, then the other keys
  in creation order. Nothing of \<open>Object.prototype\<close> is enumerable.
\<close>

definition is_digit :: "16 word \<Rightarrow> bool" where
  "is_digit c \<longleftrightarrow> 0x30 \<le> c \<and> c \<le> 0x39"

definition digits_value :: "jsstring \<Rightarrow> int" where
  "digits_value k = foldl (\<lambda>a c. 10 * a + (uint c - 48)) 0 k"

definition is_array_index :: "jsstring \<Rightarrow> bool" where
  "is_array_index k \<longleftrightarrow>
     k \<noteq> [] \<and> list_all is_digit k \<and> (hd k \<noteq> 0x30 \<or> length k = 1) \<and>
     digits_value k < 2 ^ 32 - 1"

definition for_in_keys :: "rooms \<Rightarrow> jsstring list" where
  "for_in_keys rs =
     sort_key digits_value (filter is_array_index (map fst rs)) @
     filter (\<lambda>k. \<not> is_array_index k) (map fst rs)"

subsection \<open>What a handler does besides changing the tables\<close>

record message =
  id' :: jsstring
  user :: jsval
  text' :: jsval
  timestamp :: nat

datatype scope = Everyone | To jsval

datatype outbound =
    UsersOnline "presence list"
  | RoomUsers jsprop
  | Message message

datatype console =
    User_connected jsstring
  | User_joined_room jsval jsval
  | User_left_room jsval
  | User_disconnected jsstring
  | Failed_to_persist_participant
  | JoinRoom_handler_error
  | Failed_to_append_chat
  | Failed_adding_chat

datatype effect =
    Emit scope outbound
  | Socket_join jsstring jsval
  | Socket_leave jsstring jsval
  | Socket_data jsstring jsstring jsval
  | Console_log console
  | Console_warn console
  | Fetch jsstring jsval jsval jsval
  | MkdirSync jsstring
  | AppendFile jsstring jsstring

datatype js_error = TypeError | URIError | FetchError | FsError

datatype outcome = Returned | Threw js_error

type_synonym result = "state \<times> effect list \<times> outcome"

definition state_of :: "result \<Rightarrow> state" where
  "state_of r = fst r"

definition effects :: "result \<Rightarrow> effect list" where
  "effects r = fst (snd r)"

definition outcome_of :: "result \<Rightarrow> outcome" where
  "outcome_of r = snd (snd r)"

text \<open>The \<open>roomUsers\<close> and \<open>message\<close> broadcasts of a trace, in order.\<close>

fun roomUsers_of :: "effect \<Rightarrow> (jsval \<times> jsprop) list" where
  "roomUsers_of (Emit (To r) (RoomUsers v)) = [(r, v)]"
| "roomUsers_of _ = []"

definition roomUsers_broadcasts :: "effect list \<Rightarrow> (jsval \<times> jsprop) list" where
  "roomUsers_broadcasts es = concat (map roomUsers_of es)"

fun message_of :: "effect \<Rightarrow> (scope \<times> message) list" where
  "message_of (Emit sc (Message m)) = [(sc, m)]"
| "message_of _ = []"

definition message_broadcasts :: "effect list \<Rightarrow> (scope \<times> message) list" where
  "message_broadcasts es = concat (map message_of es)"

fun usersOnline_of :: "effect \<Rightarrow> presence list list" where
  "usersOnline_of (Emit Everyone (UsersOnline us)) = [us]"
| "usersOnline_of _ = []"

definition usersOnline_broadcasts :: "effect list \<Rightarrow> presence list list" where
  "usersOnline_broadcasts es = concat (map usersOnline_of es)"

subsection \<open>connection and newUser\<close>

definition connection :: "jsstring \<Rightarrow> state \<Rightarrow> result" where
  "connection c s =
     (let s' = s\<lparr>onlineUsers := onlineUsers s @ [\<lparr>socketId = c, userId = Str []\<rparr>]\<rparr>
      in (s', [Console_log (User_connected c), Emit Everyone (UsersOnline (onlineUsers s'))],
          Returned))"

text \<open>\<open>Array.prototype.findIndex\<close>: the first index that satisfies \<open>p\<close>, or \<open>-1\<close>.\<close>

fun findIndex :: "('a \<Rightarrow> bool) \<Rightarrow> 'a list \<Rightarrow> int" where
  "findIndex p [] = - 1"
| "findIndex p (x # xs) =
     (if p x then 0 else (let i = findIndex p xs in if i = - 1 then - 1 else i + 1))"

definition newUser :: "jsstring \<Rightarrow> jsval \<Rightarrow> state \<Rightarrow> result" where
  "newUser c uid s =
     (if \<not> truthy uid then (s, [], Returned)
      else
        let index = findIndex (\<lambda>u. socketId u = c) (onlineUsers s);
            us = (if index \<noteq> - 1
                  then (onlineUsers s)[nat index := (onlineUsers s ! nat index)\<lparr>userId := uid\<rparr>]
                  else onlineUsers s @ [\<lparr>socketId = c, userId = uid\<rparr>]);
            s' = s\<lparr>onlineUsers := us\<rparr>
        in (s', [Emit Everyone (UsersOnline (onlineUsers s'))], Returned))"

subsection \<open>The environment of one event\<close>

text \<open>
  What a handler reads from outside the two tables while it handles one event: the
  process environment, the identifier that \<open>crypto.randomUUID()\<close> returns, the clock,
  and how the file system, the path library and the backend answer. \<open>entered\<close> is the
  time at which the handler is called; \<open>Date_message\<close> and \<open>Date_transcript\<close> are the
  two \<open>new Date()\<close> of sendMessage, in milliseconds.
\<close>

record env =
  BACKEND_BASE :: jsval
  TRANSCRIPTS_DIR :: jsval
  cwd :: jsstring
  path_join :: "jsstring list \<Rightarrow> jsstring"
  existsSync :: "jsstring \<Rightarrow> bool"
  mkdirSync :: "jsstring \<Rightarrow> bool"
  appendFile :: "jsstring \<Rightarrow> jsstring \<Rightarrow> bool"
  randomUUID :: jsstring
  entered :: nat
  Date_message :: nat
  Date_transcript :: nat
  toISOString :: "nat \<Rightarrow> jsstring"
  encodeURIComponent :: "jsstring \<Rightarrow> jsstring option"
  fetch :: "jsstring \<Rightarrow> bool"

subsection \<open>joinRoom\<close>

text \<open>\<open>backend.replace(/\/+$/, '')\<close>: the trailing slashes go.\<close>

definition strip_slashes :: "jsstring \<Rightarrow> jsstring" where
  "strip_slashes b = rev (dropWhile (\<lambda>c. c = 0x2F) (rev b))"

text \<open>
  The inner \<open>try\<close> of joinRoom: the POST to the backend when an email came with the
  payload. \<open>encodeURIComponent\<close> answers \<open>None\<close> where it throws, \<open>fetch\<close> answers
  \<open>False\<close> where the request is rejected; both end in the inner \<open>catch\<close>.
\<close>

definition notify_backend :: "env \<Rightarrow> jsval \<Rightarrow> jsval \<Rightarrow> jsval \<Rightarrow> jsval \<Rightarrow> effect list" where
  "notify_backend e roomId usern email uid =
     (let backend = or_else (BACKEND_BASE e) (lit ''http://localhost:3000'')
      in if truthy email then
           (case encodeURIComponent e (String roomId) of
              None \<Rightarrow> [Console_warn Failed_to_persist_participant]
            | Some r \<Rightarrow>
                let url = strip_slashes backend @ lit ''/api/meetings/'' @ r @ lit ''/participants''
                in if fetch e url then [Fetch url email uid usern]
                   else [Fetch url email uid usern, Console_warn Failed_to_persist_participant])
         else [])"

text \<open>The body of the outer \<open>try\<close>: \<open>.push\<close> on an inherited property is a TypeError.\<close>

definition joinRoom_body ::
  "env \<Rightarrow> jsstring \<Rightarrow> jsval \<Rightarrow> jsval \<Rightarrow> jsval \<Rightarrow> jsval \<Rightarrow> state \<Rightarrow> result" where
  "joinRoom_body e c roomId usern email uid s =
     (let k = String roomId;
          es0 = [Socket_join c roomId, Socket_data c (lit ''username'') usern,
                 Socket_data c (lit ''email'') email];
          rs1 = (if \<not> truthy_prop (rooms_get (rooms s) k) then rooms_set k [] (rooms s)
                 else rooms s)
      in case rooms_get rs1 k of
           Array ms \<Rightarrow>
             let rs2 = rooms_set k (ms @ [\<lparr>socketId = c, username = usern\<rparr>]) rs1
             in (s\<lparr>rooms := rs2\<rparr>,
                 es0 @ [Console_log (User_joined_room usern roomId),
                        Emit (To roomId) (RoomUsers (rooms_get rs2 k))] @
                 notify_backend e roomId usern email uid,
                 Returned)
         | Absent \<Rightarrow> (s\<lparr>rooms := rs1\<rparr>, es0, Threw TypeError)
         | Proto \<Rightarrow> (s\<lparr>rooms := rs1\<rparr>, es0, Threw TypeError))"

text \<open>The handler from its \<open>try\<close> on, that is once the payload is destructured.\<close>

definition joinRoom ::
  "env \<Rightarrow> jsstring \<Rightarrow> jsval \<Rightarrow> jsval \<Rightarrow> jsval \<Rightarrow> jsval \<Rightarrow> state \<Rightarrow> result" where
  "joinRoom e c roomId usern email uid s =
     (case joinRoom_body e c roomId usern email uid s of
        (s', es, Returned) \<Rightarrow> (s', es, Returned)
      | (s', es, Threw x) \<Rightarrow> (s', es @ [Console_warn JoinRoom_handler_error], Returned))"

text \<open>
  The handler as \<open>socket.on("joinRoom", ...)\<close> registers it. The destructuring is in
  the parameter list, outside the \<open>try\<close>: with no payload the promise of the
  \<open>async\<close> handler is rejected with a TypeError that nothing handles, before anything
  is done.
\<close>

fun on_joinRoom ::
  "env \<Rightarrow> jsstring \<Rightarrow> (jsval \<times> jsval \<times> jsval \<times> jsval) payload \<Rightarrow> state \<Rightarrow> result" where
  "on_joinRoom e c Nullish s = (s, [], Threw TypeError)"
| "on_joinRoom e c (Fields (roomId, usern, email, uid)) s =
     joinRoom e c roomId usern email uid s"

subsection \<open>leaveRoom\<close>

definition leaveRoom :: "jsstring \<Rightarrow> jsval \<Rightarrow> state \<Rightarrow> result" where
  "leaveRoom c roomId s =
     (let k = String roomId
      in case rooms_get (rooms s) k of
           Absent \<Rightarrow> (s, [Socket_leave c roomId, Console_log (User_left_room roomId)], Returned)
         | Array ms \<Rightarrow>
             let rs' = rooms_set k (filter (\<lambda>u. socketId u \<noteq> c) ms) (rooms s)
             in (s\<lparr>rooms := rs'\<rparr>,
                 [Socket_leave c roomId, Emit (To roomId) (RoomUsers (rooms_get rs' k)),
                  Console_log (User_left_room roomId)],
                 Returned)
         | Proto \<Rightarrow> (s, [Socket_leave c roomId], Threw TypeError))"

subsection \<open>sendMessage\<close>

text \<open>\<open>.replace(/[^a-zA-Z0-9-_]/g, '_')\<close>, code unit by code unit.\<close>

definition is_safe :: "16 word \<Rightarrow> bool" where
  "is_safe c \<longleftrightarrow>
     (0x61 \<le> c \<and> c \<le> 0x7A) \<or> (0x41 \<le> c \<and> c \<le> 0x5A) \<or> (0x30 \<le> c \<and> c \<le> 0x39) \<or>
     c = 0x2D \<or> c = 0x5F"

definition replace_unsafe :: "jsstring \<Rightarrow> jsstring" where
  "replace_unsafe s = map (\<lambda>c. if is_safe c then c else 0x5F) s"

definition transcriptsDir :: "env \<Rightarrow> jsstring" where
  "transcriptsDir e =
     (let c1 = path_join e [cwd e, lit ''..'', lit ''AgoraX_resume'', lit ''tmp'', lit ''transcripts''];
          c2 = path_join e [cwd e, lit ''..'', lit ''agoraX_back'', lit ''tmp'', lit ''transcripts''];
          d = or_else (TRANSCRIPTS_DIR e) []
      in if d = [] then
           (case find (existsSync e) [c1, c2] of
              Some found \<Rightarrow> if found \<noteq> [] then found else c1
            | None \<Rightarrow> c1)
         else d)"

definition transcriptFile :: "env \<Rightarrow> jsval \<Rightarrow> jsval \<Rightarrow> jsstring" where
  "transcriptFile e roomId usr =
     (let safeUser = replace_unsafe (or_else usr (lit ''unknown''));
          safeRoom = replace_unsafe (or_else roomId (lit ''global''))
      in path_join e [transcriptsDir e,
           lit ''transcript-'' @ safeRoom @ lit ''-'' @ safeUser @ lit ''.txt''])"

definition entry :: "env \<Rightarrow> jsval \<Rightarrow> jsval \<Rightarrow> jsstring" where
  "entry e usr txt =
     lit ''['' @ toISOString e (Date_transcript e) @ lit ''] (chat) '' @ String usr @
     lit '': '' @ String txt @ [0x0A]"

text \<open>
  The \<open>try\<close> block after the emit. \<open>mkdirSync\<close> answers \<open>False\<close> where it throws
  (the \<open>catch\<close> warns); \<open>appendFile\<close> answers \<open>False\<close> where its callback gets an
  error (the callback warns).
\<close>

definition append_transcript :: "env \<Rightarrow> jsval \<Rightarrow> jsval \<Rightarrow> jsval \<Rightarrow> effect list" where
  "append_transcript e roomId usr txt =
     (let dir = transcriptsDir e;
          mk = (if \<not> existsSync e dir then [MkdirSync dir] else [])
      in if \<not> existsSync e dir \<and> \<not> mkdirSync e dir
         then mk @ [Console_warn Failed_adding_chat]
         else
           let file = transcriptFile e roomId usr;
               line = entry e usr txt
           in mk @ [AppendFile file line] @
              (if appendFile e file line then [] else [Console_warn Failed_to_append_chat]))"

text \<open>The body of the handler, that is once the payload is destructured.\<close>

definition sendMessage :: "env \<Rightarrow> jsstring \<Rightarrow> jsval \<Rightarrow> jsval \<Rightarrow> jsval \<Rightarrow> state \<Rightarrow> result" where
  "sendMessage e c roomId usr txt s =
     (s,
      Emit (To roomId)
        (Message \<lparr>id' = randomUUID e, user = usr, text' = txt, timestamp = Date_message e\<rparr>) #
      append_transcript e roomId usr txt,
      Returned)"

text \<open>
  The handler as \<open>socket.on("sendMessage", ...)\<close> registers it: with no payload the
  destructuring throws a TypeError before the body, so before any identifier is generated.
\<close>

fun on_sendMessage ::
  "env \<Rightarrow> jsstring \<Rightarrow> (jsval \<times> jsval \<times> jsval) payload \<Rightarrow> state \<Rightarrow> result" where
  "on_sendMessage e c Nullish s = (s, [], Threw TypeError)"
| "on_sendMessage e c (Fields (roomId, usr, txt)) s = sendMessage e c roomId usr txt s"

subsection \<open>disconnect\<close>

fun disconnect_rooms :: "jsstring \<Rightarrow> jsstring list \<Rightarrow> rooms \<Rightarrow> rooms \<times> effect list \<times> outcome" where
  "disconnect_rooms c [] rs = (rs, [], Returned)"
| "disconnect_rooms c (k # ks) rs =
     (case rooms_get rs k of
        Array ms \<Rightarrow>
          (case disconnect_rooms c ks (rooms_set k (filter (\<lambda>u. socketId u \<noteq> c) ms) rs) of
             (rs'', es, out) \<Rightarrow>
               (rs'',
                Emit (To (Str k))
                  (RoomUsers (rooms_get (rooms_set k (filter (\<lambda>u. socketId u \<noteq> c) ms) rs) k)) # es,
                out))
      | Absent \<Rightarrow> (rs, [], Threw TypeError)
      | Proto \<Rightarrow> (rs, [], Threw TypeError))"

definition disconnect :: "jsstring \<Rightarrow> state \<Rightarrow> result" where
  "disconnect c s =
     (case disconnect_rooms c (for_in_keys (rooms s)) (rooms s) of
        (rs, es, Returned) \<Rightarrow>
          (let s' = \<lparr>onlineUsers = filter (\<lambda>u. socketId u \<noteq> c) (onlineUsers s), rooms = rs\<rparr>
           in (s', Console_log (User_disconnected c) # es @
                   [Emit Everyone (UsersOnline (onlineUsers s'))], Returned))
      | (rs, es, Threw x) \<Rightarrow>
          (s\<lparr>rooms := rs\<rparr>, Console_log (User_disconnected c) # es, Threw x))"

subsection \<open>Events and runs\<close>

datatype event =
    Connection
  | NewUser jsval
  | JoinRoom "(jsval \<times> jsval \<times> jsval \<times> jsval) payload"
  | LeaveRoom jsval
  | SendMessage "(jsval \<times> jsval \<times> jsval) payload"
  | Disconnect

fun handle :: "env \<Rightarrow> jsstring \<Rightarrow> event \<Rightarrow> state \<Rightarrow> result" where
  "handle e c Connection s = connection c s"
| "handle e c (NewUser uid) s = newUser c uid s"
| "handle e c (JoinRoom p) s = on_joinRoom e c p s"
| "handle e c (LeaveRoom roomId) s = leaveRoom c roomId s"
| "handle e c (SendMessage p) s = on_sendMessage e c p s"
| "handle e c Disconnect s = disconnect c s"

text \<open>
  Events are handled one at a time, each to its end. An exception that leaves a handler
  (or the rejected promise of joinRoom) is not caught by anything in this file: the run
  stops there.
\<close>

fun run :: "(env \<times> jsstring \<times> event) list \<Rightarrow> state \<Rightarrow> result" where
  "run [] s = (s, [], Returned)"
| "run ((e, c, ev) # evs) s =
     (case handle e c ev s of
        (s', es, Returned) \<Rightarrow> (case run evs s' of (s'', es', out) \<Rightarrow> (s'', es @ es', out))
      | (s', es, Threw x) \<Rightarrow> (s', es, Threw x))"

subsection \<open>Reading the tables\<close>

text \<open>The member list of a room; a room that is no key of the table has none.\<close>

definition members :: "rooms \<Rightarrow> jsstring \<Rightarrow> member list" where
  "members rs k = (case map_of rs k of Some ms \<Rightarrow> ms | None \<Rightarrow> [])"

text \<open>An object has each key once.\<close>

definition wf_state :: "state \<Rightarrow> bool" where
  "wf_state s \<longleftrightarrow> distinct (map fst (rooms s))"

text \<open>The rooms that list the connection \<open>c\<close>.\<close>

definition rooms_of :: "jsstring \<Rightarrow> state \<Rightarrow> jsstring list" where
  "rooms_of c s = filter (\<lambda>k. c \<in> socketId ` set (members (rooms s) k)) (map fst (rooms s))"

subsection \<open>Concrete inputs\<close>

definition env0 :: env where
  "env0 = \<lparr>BACKEND_BASE = Undefined, TRANSCRIPTS_DIR = Str (lit ''/tmp/t''), cwd = lit ''/srv'',
     path_join = (\<lambda>ps. case ps of [] \<Rightarrow> lit ''.'' | p # qs \<Rightarrow> p @ concat (map (\<lambda>q. 0x2F # q) qs)),
     existsSync = (\<lambda>p. True), mkdirSync = (\<lambda>p. True), appendFile = (\<lambda>f l. True),
     randomUUID = lit ''123e4567-e89b-42d3-a456-426614174000'',
     entered = 1000, Date_message = 1000, Date_transcript = 1001,
     toISOString = (\<lambda>t. lit ''2025-01-01T00:00:00.000Z''),
     encodeURIComponent = Some, fetch = (\<lambda>u. True)\<rparr>"

definition Alice :: member where
  "Alice = \<lparr>socketId = lit ''A'', username = Str (lit ''Alice'')\<rparr>"

definition Bob :: member where
  "Bob = \<lparr>socketId = lit ''B'', username = Str (lit ''Bob'')\<rparr>"

definition four_rooms :: state where
  "four_rooms =
     \<lparr>onlineUsers = [\<lparr>socketId = lit ''A'', userId = Str (lit ''u1'')\<rparr>,
                     \<lparr>socketId = lit ''B'', userId = Str []\<rparr>],
      rooms = [(lit ''r1'', [Alice, Bob]), (lit ''r2'', [Alice]), (lit ''r3'', [Bob]),
               (lit ''r4'', [])]\<rparr>"

text \<open>Two environments in which the file system fails.\<close>

definition env_mkdir_fails :: env where
  "env_mkdir_fails = env0\<lparr>existsSync := (\<lambda>p. False), mkdirSync := (\<lambda>p. False)\<rparr>"

definition env_append_fails :: env where
  "env_append_fails = env0\<lparr>appendFile := (\<lambda>f l. False)\<rparr>"

text \<open>A run in which three connections come and go.\<close>

definition three_sessions :: "(env \<times> jsstring \<times> event) list" where
  "three_sessions =
     [(env0, lit ''A'', Connection), (env0, lit ''B'', Connection), (env0, lit ''A'', Disconnect),
      (env0, lit ''C'', Connection), (env0, lit ''C'', Disconnect), (env0, lit ''B'', Disconnect)]"

text \<open>A run of two messages, each with the identifier generated for it.\<close>

definition env1 :: env where
  "env1 = env0\<lparr>randomUUID := lit ''9b2f1c3e-7d4a-4e8b-8c21-0a1b2c3d4e5f'',
     entered := 2000, Date_message := 2003, Date_transcript := 2004\<rparr>"

definition two_messages :: "(env \<times> jsstring \<times> event) list" where
  "two_messages =
     [(env0, lit ''A'',
       SendMessage (Fields (Str (lit ''r1''), Str (lit ''Alice''), Str (lit ''hi'')))),
      (env1, lit ''B'', LeaveRoom (Str (lit ''r1''))),
      (env1, lit ''B'',
       SendMessage (Fields (Str (lit ''r1''), Str (lit ''Bob''), Str (lit ''bye''))))]"

subsection \<open>Reading traces and runs\<close>

text \<open>The \<open>fs.appendFile\<close> calls of a trace: file and line.\<close>

definition appends :: "effect list \<Rightarrow> (jsstring \<times> jsstring) list" where
  "appends es = concat (map (\<lambda>x. case x of AppendFile f l \<Rightarrow> [(f, l)] | _ \<Rightarrow> []) es)"

text \<open>
  A run of connect and disconnect events only, and one in which every connection is
  followed, later in the run, by the disconnect of the same socket.
\<close>

fun connect_or_disconnect :: "env \<times> jsstring \<times> event \<Rightarrow> bool" where
  "connect_or_disconnect (e, c, Connection) = True"
| "connect_or_disconnect (e, c, Disconnect) = True"
| "connect_or_disconnect (e, c, _) = False"

fun disconnects :: "jsstring \<Rightarrow> env \<times> jsstring \<times> event \<Rightarrow> bool" where
  "disconnects c (e, c', Disconnect) = (c' = c)"
| "disconnects c (e, c', _) = False"

fun all_disconnect :: "(env \<times> jsstring \<times> event) list \<Rightarrow> bool" where
  "all_disconnect [] = True"
| "all_disconnect ((e, c, Connection) # evs) = (list_ex (disconnects c) evs \<and> all_disconnect evs)"
| "all_disconnect (x # evs) = all_disconnect evs"

text \<open>
  The identifiers that \<open>crypto.randomUUID()\<close> hands out during a run, one for each
  sendMessage event, and the identifiers of the \<open>message\<close> broadcasts of a trace.
\<close>

fun generated_ids :: "env \<times> jsstring \<times> event \<Rightarrow> jsstring list" where
  "generated_ids (e, c, SendMessage (Fields (r, a, t))) = [randomUUID e]"
| "generated_ids (e, c, _) = []"

definition message_ids :: "effect list \<Rightarrow> jsstring list" where
  "message_ids es = map (\<lambda>b. id' (snd b)) (message_broadcasts es)"

text \<open>The same joinRoom event, \<open>n\<close> times in a row.\<close>

fun joins :: "nat \<Rightarrow> env \<Rightarrow> jsstring \<Rightarrow> jsval \<Rightarrow> jsval \<Rightarrow> jsval \<Rightarrow> jsval \<Rightarrow> state \<Rightarrow> state" where
  "joins 0 e c roomId usern email uid s = s"
| "joins (Suc n) e c roomId usern email uid s =
     joins n e c roomId usern email uid (state_of (joinRoom e c roomId usern email uid s))"

section \<open>Properties\<close>

subsection \<open>The rooms object\<close>

lemma map_of_rooms_set: "map_of (rooms_set k v rs) = (map_of rs)(k \<mapsto> v)"
  by (induction rs) (auto simp: fun_eq_iff)

lemma keys_rooms_set:
  "map fst (rooms_set k v rs) = (if k \<in> fst ` set rs then map fst rs else map fst rs @ [k])"
  by (induction rs) auto

lemma rooms_set_same: "map_of rs k = Some v \<Longrightarrow> rooms_set k v rs = rs"
  by (induction rs) (auto split: if_splits)

lemma rooms_set_twice: "rooms_set k v (rooms_set k w rs) = rooms_set k v rs"
  by (induction rs) auto

lemma rooms_get_set: "rooms_get (rooms_set k v rs) k = Array v"
  by (simp add: rooms_get_def map_of_rooms_set)

lemma rooms_get_set_other: "k' \<noteq> k \<Longrightarrow> rooms_get (rooms_set k v rs) k' = rooms_get rs k'"
  by (simp add: rooms_get_def map_of_rooms_set)

lemma rooms_get_own: "map_of rs k = Some ms \<Longrightarrow> rooms_get rs k = Array ms"
  by (simp add: rooms_get_def)

lemma rooms_get_Array: "rooms_get rs k = Array ms \<longleftrightarrow> map_of rs k = Some ms"
  by (simp add: rooms_get_def split: option.splits)

lemma members_rooms_set:
  "members (rooms_set k v rs) k' = (if k' = k then v else members rs k')"
  by (simp add: members_def map_of_rooms_set)

lemma map_of_keys: "(map_of rs k = None) = (k \<notin> fst ` set rs)"
  by (simp add: map_of_eq_None_iff)

lemma distinct_rooms_set: "distinct (map fst (rooms_set k v rs)) = distinct (map fst rs)"
  by (auto simp: keys_rooms_set)

lemma set_for_in_keys: "set (for_in_keys rs) = fst ` set rs"
  by (auto simp: for_in_keys_def)

lemma distinct_for_in_keys: "distinct (map fst rs) \<Longrightarrow> distinct (for_in_keys rs)"
  by (auto simp: for_in_keys_def)

lemma length_for_in_keys: "length (for_in_keys rs) = length rs"
  using sum_length_filter_compl [of is_array_index "map fst rs"]
  by (simp add: for_in_keys_def)

subsection \<open>Traces\<close>

lemma roomUsers_broadcasts_append:
  "roomUsers_broadcasts (xs @ ys) = roomUsers_broadcasts xs @ roomUsers_broadcasts ys"
  by (simp add: roomUsers_broadcasts_def)

lemma roomUsers_broadcasts_notify: "roomUsers_broadcasts (notify_backend e r u m i) = []"
  by (auto simp: roomUsers_broadcasts_def notify_backend_def Let_def split: option.splits)

lemma roomUsers_broadcasts_join:
  "roomUsers_broadcasts
     ([Socket_join c r, Socket_data c f1 u, Socket_data c f2 m, Console_log x,
       Emit (To r) (RoomUsers v)] @ notify_backend e r u m i) = [(r, v)]"
  by (simp only: roomUsers_broadcasts_append roomUsers_broadcasts_notify)
     (simp add: roomUsers_broadcasts_def)

lemma roomUsers_broadcasts_Cons_log:
  "roomUsers_broadcasts (Console_log x # es) = roomUsers_broadcasts es"
  by (simp add: roomUsers_broadcasts_def)

lemma roomUsers_broadcasts_usersOnline:
  "roomUsers_broadcasts [Emit Everyone x] = []"
  by (simp add: roomUsers_broadcasts_def)

lemma roomUsers_broadcasts_map:
  "roomUsers_broadcasts (map (\<lambda>k. Emit (To (Str k)) (RoomUsers (g k))) ks) =
     map (\<lambda>k. (Str k, g k)) ks"
  by (induction ks) (simp_all add: roomUsers_broadcasts_def)

lemma filter_absent_key:
  "k \<notin> set ks \<Longrightarrow> filter (\<lambda>b. fst b = Str k) (map (\<lambda>k. (Str k, g k)) ks) = []"
  by (induction ks) auto

lemma filter_distinct_key:
  "distinct ks \<Longrightarrow> k \<in> set ks \<Longrightarrow>
     filter (\<lambda>b. fst b = Str k) (map (\<lambda>k. (Str k, g k)) ks) = [(Str k, g k)]"
  by (induction ks) (auto simp: filter_absent_key)

subsection \<open>joinRoom\<close>

text \<open>
  Unless the room id names a property that \<open>rooms\<close> inherits, joinRoom is one append
  and one broadcast, whatever the payload holds.
\<close>

lemma joinRoom_on_other_key:
  assumes "String roomId \<notin> set Object_prototype"
  shows "joinRoom e c roomId usern email uid s =
     (s\<lparr>rooms := rooms_set (String roomId)
            (members (rooms s) (String roomId) @ [\<lparr>socketId = c, username = usern\<rparr>]) (rooms s)\<rparr>,
      [Socket_join c roomId, Socket_data c (lit ''username'') usern,
       Socket_data c (lit ''email'') email,
       Console_log (User_joined_room usern roomId),
       Emit (To roomId) (RoomUsers (Array
         (members (rooms s) (String roomId) @ [\<lparr>socketId = c, username = usern\<rparr>])))] @
      notify_backend e roomId usern email uid,
      Returned)"
proof (cases "map_of (rooms s) (String roomId)")
  case None
  then show ?thesis using assms
    by (simp add: joinRoom_def joinRoom_body_def members_def rooms_get_def Let_def
        map_of_rooms_set rooms_set_twice)
next
  case (Some ms)
  then show ?thesis
    by (simp add: joinRoom_def joinRoom_body_def members_def rooms_get_def Let_def
        map_of_rooms_set)
qed

lemma joinRoom_returns: "outcome_of (joinRoom e c roomId usern email uid s) = Returned"
  by (simp add: joinRoom_def outcome_of_def split: prod.splits outcome.splits)

lemma joinRoom_on_inherited_key:
  assumes "String roomId \<in> set Object_prototype" "map_of (rooms s) (String roomId) = None"
  shows "joinRoom e c roomId usern email uid s =
     (s, [Socket_join c roomId, Socket_data c (lit ''username'') usern,
       Socket_data c (lit ''email'') email, Console_warn JoinRoom_handler_error], Returned)"
  using assms by (simp add: joinRoom_def joinRoom_body_def rooms_get_def Let_def)

lemma joinRoom_appends:
  assumes "String roomId \<notin> set Object_prototype"
  shows "members (rooms (state_of (joinRoom e c roomId usern email uid s))) k =
           (if k = String roomId
            then members (rooms s) k @ [\<lparr>socketId = c, username = usern\<rparr>]
            else members (rooms s) k)"
    and "roomUsers_broadcasts (effects (joinRoom e c roomId usern email uid s)) =
           [(roomId, Array (members (rooms (state_of (joinRoom e c roomId usern email uid s)))
                             (String roomId)))]"
    and "onlineUsers (state_of (joinRoom e c roomId usern email uid s)) = onlineUsers s"
  by (simp_all add: joinRoom_on_other_key [OF assms] state_of_def effects_def
      members_rooms_set roomUsers_broadcasts_join del: append.simps)

lemma joins_members:
  assumes "String roomId \<notin> set Object_prototype"
  shows "members (rooms (joins n e c roomId usern email uid s)) (String roomId) =
           members (rooms s) (String roomId) @ replicate n \<lparr>socketId = c, username = usern\<rparr>"
proof (induction n arbitrary: s)
  case 0
  show ?case by simp
next
  case (Suc n)
  show ?case
    by (simp add: Suc.IH joinRoom_appends(1) [OF assms] replicate_app_Cons_same)
qed

lemma not_inherited_falsy: "\<not> truthy roomId \<Longrightarrow> String roomId \<notin> set Object_prototype"
  by (cases roomId) (auto simp: Object_prototype_def lit_def)

text \<open>
  An event with no payload never reaches the \<open>try\<close>: the handler ends in a TypeError,
  with the tables as they were and nothing emitted.
\<close>

lemma on_joinRoom_no_payload:
  "outcome_of (on_joinRoom e c Nullish s) = Threw TypeError
   \<and> state_of (on_joinRoom e c Nullish s) = s
   \<and> effects (on_joinRoom e c Nullish s) = []"
  by (simp add: outcome_of_def state_of_def effects_def)

text \<open>
  C1, as the code has it: a joinRoom event that carries a payload in which \<open>roomId\<close> or
  \<open>username\<close> is missing or empty never throws, and it is no no-op: the key is
  \<open>String(roomId)\<close> (\<open>"undefined"\<close> for a missing id, \<open>""\<close> for an empty one), the
  entry \<open>{socketId, username}\<close> goes to the end of that room's list, and one
  \<open>roomUsers\<close> broadcast carries the list after the append. (An event with no payload at
  all, and room ids that name an inherited property, are left aside here.)
\<close>

theorem joinRoom_missing_fields:
  assumes "\<not> truthy roomId \<or> \<not> truthy usern"
    and "String roomId \<notin> set Object_prototype"
  shows "outcome_of (on_joinRoom e c (Fields (roomId, usern, email, uid)) s) = Returned
       \<and> members (rooms (state_of (on_joinRoom e c (Fields (roomId, usern, email, uid)) s)))
             (String roomId) =
           members (rooms s) (String roomId) @ [\<lparr>socketId = c, username = usern\<rparr>]
       \<and> roomUsers_broadcasts (effects (on_joinRoom e c (Fields (roomId, usern, email, uid)) s)) =
           [(roomId, Array (members (rooms s) (String roomId) @ [\<lparr>socketId = c, username = usern\<rparr>]))]"
  by (simp add: joinRoom_on_other_key [OF assms(2)] outcome_of_def state_of_def effects_def
      members_rooms_set roomUsers_broadcasts_join del: append.simps)

theorem joinRoom_missing_fields_witness:
  "\<not> truthy Undefined \<and> String Undefined \<notin> set Object_prototype
   \<and> outcome_of (on_joinRoom env0 (lit ''Z'')
         (Fields (Undefined, Str (lit ''Zoe''), Undefined, Undefined)) four_rooms) = Returned
   \<and> members (rooms (state_of (on_joinRoom env0 (lit ''Z'')
         (Fields (Undefined, Str (lit ''Zoe''), Undefined, Undefined)) four_rooms)))
         (String Undefined) =
       members (rooms four_rooms) (String Undefined) @
       [\<lparr>socketId = lit ''Z'', username = Str (lit ''Zoe'')\<rparr>]"
proof -
  have h0: "\<not> truthy Undefined" by simp
  then have h1: "\<not> truthy Undefined \<or> \<not> truthy (Str (lit ''Zoe''))" by simp
  have h2: "String Undefined \<notin> set Object_prototype"
    by (rule not_inherited_falsy) simp
  from joinRoom_missing_fields [OF h1 h2, of env0 "lit ''Z''" Undefined Undefined four_rooms] h0 h2
  show ?thesis by blast
qed

text \<open>
  C1, as stated, fails: a joinRoom event whose payload has an empty \<open>roomId\<close> and an
  empty \<open>username\<close>, on the initial state, changes the rooms table and emits a
  \<open>roomUsers\<close> broadcast.
\<close>

theorem joinRoom_missing_fields_counterexample:
  "rooms (state_of (on_joinRoom env0 (lit ''A'') (Fields (Str [], Str [], Undefined, Undefined))
       init)) \<noteq> rooms init
   \<and> roomUsers_broadcasts (effects (on_joinRoom env0 (lit ''A'')
       (Fields (Str [], Str [], Undefined, Undefined)) init)) \<noteq> []"
  by code_simp

text \<open>
  C7 at the room id \<open>"toString"\<close>: \<open>rooms["toString"]\<close> is the function inherited from
  \<open>Object.prototype\<close>, so the list is not created, \<open>.push\<close> is a TypeError that the
  outer \<open>catch\<close> logs, nothing is appended and nothing is broadcast.
\<close>

theorem joinRoom_inherited_name:
  "joinRoom env0 (lit ''A'') (Str (lit ''toString'')) (Str (lit ''Alice'')) Undefined Undefined init =
     (init,
      [Socket_join (lit ''A'') (Str (lit ''toString'')),
       Socket_data (lit ''A'') (lit ''username'') (Str (lit ''Alice'')),
       Socket_data (lit ''A'') (lit ''email'') Undefined,
       Console_warn JoinRoom_handler_error], Returned)"
  by code_simp

subsection \<open>leaveRoom\<close>

lemma leaveRoom_absent_key:
  assumes "map_of (rooms s) (String roomId) = None"
  shows "state_of (leaveRoom c roomId s) = s"
    and "roomUsers_broadcasts (effects (leaveRoom c roomId s)) = []"
  using assms
  by (simp_all add: leaveRoom_def rooms_get_def state_of_def effects_def
      roomUsers_broadcasts_def Let_def)

lemma leaveRoom_own_key:
  assumes "map_of (rooms s) (String roomId) = Some ms"
  shows "leaveRoom c roomId s =
     (s\<lparr>rooms := rooms_set (String roomId) (filter (\<lambda>u. socketId u \<noteq> c) ms) (rooms s)\<rparr>,
      [Socket_leave c roomId,
       Emit (To roomId) (RoomUsers (Array (filter (\<lambda>u. socketId u \<noteq> c) ms))),
       Console_log (User_left_room roomId)], Returned)"
  using assms by (simp add: leaveRoom_def rooms_get_def map_of_rooms_set)

lemma leaveRoom_members:
  "members (rooms (state_of (leaveRoom c roomId s))) (String roomId) =
     filter (\<lambda>u. socketId u \<noteq> c) (members (rooms s) (String roomId))"
proof (cases "map_of (rooms s) (String roomId)")
  case None
  then show ?thesis by (simp add: leaveRoom_absent_key members_def)
next
  case (Some ms)
  then show ?thesis
    by (simp add: leaveRoom_own_key state_of_def members_rooms_set) (simp add: members_def)
qed

lemma leaveRoom_twice:
  "state_of (leaveRoom c roomId (state_of (leaveRoom c roomId s))) = state_of (leaveRoom c roomId s)"
proof (cases "map_of (rooms s) (String roomId)")
  case None
  then show ?thesis by (simp add: leaveRoom_absent_key)
next
  case (Some ms)
  let ?f = "filter (\<lambda>u. socketId u \<noteq> c)"
  let ?s1 = "s\<lparr>rooms := rooms_set (String roomId) (?f ms) (rooms s)\<rparr>"
  have 1: "state_of (leaveRoom c roomId s) = ?s1"
    using Some by (simp add: leaveRoom_own_key state_of_def)
  have "map_of (rooms ?s1) (String roomId) = Some (?f ms)"
    by (simp add: map_of_rooms_set)
  from leaveRoom_own_key [OF this, of c] have 2: "state_of (leaveRoom c roomId ?s1) = ?s1"
    by (simp add: state_of_def rooms_set_twice)
  show ?thesis by (simp only: 1 2)
qed

lemma leaveRoom_non_member:
  assumes "c \<notin> socketId ` set (members (rooms s) (String roomId))"
  shows "state_of (leaveRoom c roomId s) = s"
proof (cases "map_of (rooms s) (String roomId)")
  case None
  then show ?thesis by (simp add: leaveRoom_absent_key)
next
  case (Some ms)
  with assms have "filter (\<lambda>u. socketId u \<noteq> c) ms = ms"
    by (auto simp: members_def filter_id_conv)
  with Some show ?thesis
    by (simp add: leaveRoom_own_key state_of_def rooms_set_same)
qed

text \<open>
  C2, as the code has it: a leaveRoom for a room id that is no key of the rooms table
  leaves the state as it is and emits no \<open>roomUsers\<close> broadcast (the handler guards
  both with \<open>if (rooms[roomId])\<close>).
\<close>

theorem leaveRoom_unknown_room:
  assumes "String roomId \<notin> set (map fst (rooms s))"
  shows "state_of (leaveRoom c roomId s) = s
       \<and> roomUsers_broadcasts (effects (leaveRoom c roomId s)) = []"
proof -
  from assms have "map_of (rooms s) (String roomId) = None"
    by (simp add: map_of_keys)
  then show ?thesis by (simp add: leaveRoom_absent_key)
qed

theorem leaveRoom_unknown_room_witness:
  "String (Str (lit ''r9'')) \<notin> set (map fst (rooms four_rooms))
   \<and> state_of (leaveRoom (lit ''A'') (Str (lit ''r9'')) four_rooms) = four_rooms"
proof -
  have h: "String (Str (lit ''r9'')) \<notin> set (map fst (rooms four_rooms))"
    by code_simp
  from leaveRoom_unknown_room [OF h, of "lit ''A''"] h show ?thesis by blast
qed

text \<open>
  C2, as stated, fails: leaving the unknown room \<open>"r9"\<close> sends no \<open>roomUsers\<close>
  broadcast with an empty list to that room.
\<close>

theorem leaveRoom_unknown_room_counterexample:
  "String (Str (lit ''r9'')) \<notin> set (map fst (rooms four_rooms))
   \<and> (Str (lit ''r9''), Array []) \<notin>
       set (roomUsers_broadcasts (effects (leaveRoom (lit ''A'') (Str (lit ''r9'')) four_rooms)))"
  by code_simp

text \<open>
  C6: after joinRoom and then leaveRoom of the same connection and room, the room's list
  has no entry of the connection; a second leaveRoom gives the same state as the first;
  and leaveRoom of a connection that the room does not list gives the state back
  unchanged. (The statement is about the tables: for a room id that names an inherited
  property, leaveRoom ends in a TypeError and the tables stay as they are.)
\<close>

theorem join_then_leave:
  "c \<notin> socketId ` set (members (rooms (state_of
       (leaveRoom c r (state_of (joinRoom e c r name email uid s))))) (String r))
   \<and> state_of (leaveRoom c r (state_of (leaveRoom c r s))) = state_of (leaveRoom c r s)
   \<and> (c \<notin> socketId ` set (members (rooms s) (String r)) \<longrightarrow> state_of (leaveRoom c r s) = s)"
  by (auto simp: leaveRoom_members leaveRoom_twice leaveRoom_non_member)

theorem join_then_leave_witness:
  "lit ''A'' \<notin> socketId ` set (members (rooms four_rooms) (String (Str (lit ''r3''))))
   \<and> state_of (leaveRoom (lit ''A'') (Str (lit ''r3'')) four_rooms) = four_rooms"
proof -
  have h: "lit ''A'' \<notin> socketId ` set (members (rooms four_rooms) (String (Str (lit ''r3''))))"
    by code_simp
  with join_then_leave [of "lit ''A''" "Str (lit ''r3'')" env0 Undefined Undefined Undefined four_rooms]
  show ?thesis by blast
qed

subsection \<open>sendMessage\<close>

lemma message_broadcasts_transcript: "message_broadcasts (append_transcript e r a t) = []"
  by (simp add: message_broadcasts_def append_transcript_def Let_def)

lemma sendMessage_message:
  "message_broadcasts (effects (sendMessage e c r a t s)) =
     [(To r, \<lparr>id' = randomUUID e, user = a, text' = t, timestamp = Date_message e\<rparr>)]"
  using message_broadcasts_transcript [of e r a t]
  by (simp add: sendMessage_def effects_def message_broadcasts_def)

lemma replace_unsafe_length: "length (replace_unsafe x) = length x"
  by (simp add: replace_unsafe_def)

lemma is_safe_underscore: "is_safe 0x5F"
  by (simp add: is_safe_def)

lemma replace_unsafe_safe: "list_all is_safe (replace_unsafe x)"
  by (induction x) (simp_all add: replace_unsafe_def is_safe_underscore)

lemma replace_unsafe_nth:
  "i < length x \<Longrightarrow> replace_unsafe x ! i = (if is_safe (x ! i) then x ! i else 0x5F)"
  by (simp add: replace_unsafe_def)

lemma appends_transcript:
  "appends (append_transcript e r a t) =
     (if existsSync e (transcriptsDir e) \<or> mkdirSync e (transcriptsDir e)
      then [(transcriptFile e r a, entry e a t)] else [])"
  by (simp add: appends_def append_transcript_def Let_def)

lemma sendMessage_appends:
  "appends (effects (sendMessage e c r a t s)) =
     (if existsSync e (transcriptsDir e) \<or> mkdirSync e (transcriptsDir e)
      then [(transcriptFile e r a, entry e a t)] else [])"
  using appends_transcript [of e r a t]
  by (simp add: sendMessage_def effects_def appends_def)

lemma sendMessage_warns:
  "(\<not> existsSync e (transcriptsDir e) \<and> \<not> mkdirSync e (transcriptsDir e) \<longrightarrow>
      Console_warn Failed_adding_chat \<in> set (effects (sendMessage e c r a t s)))
   \<and> ((existsSync e (transcriptsDir e) \<or> mkdirSync e (transcriptsDir e)) \<and>
        \<not> appendFile e (transcriptFile e r a) (entry e a t) \<longrightarrow>
      Console_warn Failed_to_append_chat \<in> set (effects (sendMessage e c r a t s)))"
  by (simp add: sendMessage_def effects_def append_transcript_def Let_def)

text \<open>
  C9: when the transcripts directory exists or can be made, sendMessage appends exactly one
  line, \<open>[<ISO timestamp>] (chat) <user>: <text>\n\<close>, to the file
  \<open>transcript-<room>-<user>.txt\<close> of that directory, where room and user (\<open>global\<close> and
  \<open>unknown\<close> when empty or missing) have every code unit outside \<open>a-z\<close>, \<open>A-Z\<close>,
  \<open>0-9\<close>, \<open>-\<close> and \<open>_\<close> replaced by \<open>_\<close> and every other code unit kept. Whatever
  the file system does, the handler returns, the tables are unchanged and the \<open>message\<close>
  broadcast is the same; a \<open>mkdirSync\<close> that throws and an \<open>appendFile\<close> that fails
  each leave a warning on the console.
\<close>

theorem sendMessage_transcript:
  "appends (effects (sendMessage e c r a t s)) =
     (if existsSync e (transcriptsDir e) \<or> mkdirSync e (transcriptsDir e)
      then [(path_join e [transcriptsDir e,
               lit ''transcript-'' @ replace_unsafe (or_else r (lit ''global'')) @ lit ''-'' @
               replace_unsafe (or_else a (lit ''unknown'')) @ lit ''.txt''],
             lit ''['' @ toISOString e (Date_transcript e) @ lit ''] (chat) '' @ String a @
             lit '': '' @ String t @ [0x0A])]
      else [])
   \<and> length (replace_unsafe x) = length x
   \<and> list_all is_safe (replace_unsafe x)
   \<and> (\<forall>i < length x. replace_unsafe x ! i = (if is_safe (x ! i) then x ! i else 0x5F))
   \<and> outcome_of (sendMessage e c r a t s) = Returned
   \<and> state_of (sendMessage e c r a t s) = s
   \<and> message_broadcasts (effects (sendMessage e c r a t s)) =
       [(To r, \<lparr>id' = randomUUID e, user = a, text' = t, timestamp = Date_message e\<rparr>)]
   \<and> (\<not> existsSync e (transcriptsDir e) \<and> \<not> mkdirSync e (transcriptsDir e) \<longrightarrow>
        Console_warn Failed_adding_chat \<in> set (effects (sendMessage e c r a t s)))
   \<and> ((existsSync e (transcriptsDir e) \<or> mkdirSync e (transcriptsDir e)) \<and>
        \<not> appendFile e (transcriptFile e r a) (entry e a t) \<longrightarrow>
        Console_warn Failed_to_append_chat \<in> set (effects (sendMessage e c r a t s)))"
proof -
  have 1: "outcome_of (sendMessage e c r a t s) = Returned"
    and 2: "state_of (sendMessage e c r a t s) = s"
    by (simp_all add: sendMessage_def outcome_of_def state_of_def)
  have 3: "transcriptFile e r a = path_join e [transcriptsDir e,
               lit ''transcript-'' @ replace_unsafe (or_else r (lit ''global'')) @ lit ''-'' @
               replace_unsafe (or_else a (lit ''unknown'')) @ lit ''.txt'']"
    by (simp add: transcriptFile_def Let_def)
  have 4: "entry e a t = lit ''['' @ toISOString e (Date_transcript e) @ lit ''] (chat) '' @
      String a @ lit '': '' @ String t @ [0x0A]"
    by (simp add: entry_def)
  have 5: "\<forall>i < length x. replace_unsafe x ! i = (if is_safe (x ! i) then x ! i else 0x5F)"
    by (simp add: replace_unsafe_nth)
  show ?thesis
    using sendMessage_appends [of e c r a t s] sendMessage_warns [of e c r a t s]
      sendMessage_message [of e c r a t s] replace_unsafe_safe [of x] 1 2 5
    unfolding 3 4 by (simp only: replace_unsafe_length)
qed

theorem sendMessage_transcript_witness:
  "Console_warn Failed_adding_chat \<in> set (effects (sendMessage env_mkdir_fails (lit ''A'')
       (Str (lit ''r 1'')) (Str (lit ''al ice'')) (Str (lit ''hi'')) four_rooms))
   \<and> Console_warn Failed_to_append_chat \<in> set (effects (sendMessage env_append_fails (lit ''A'')
       (Str (lit ''r 1'')) (Str (lit ''al ice'')) (Str (lit ''hi'')) four_rooms))
   \<and> replace_unsafe (lit ''r 1'') ! 1 = 0x5F
   \<and> appends (effects (sendMessage env0 (lit ''A'')
       (Str (lit ''r 1'')) (Str (lit ''al ice'')) (Str (lit ''hi'')) four_rooms)) =
      [(lit ''/tmp/t/transcript-r_1-al_ice.txt'',
        lit ''[2025-01-01T00:00:00.000Z] (chat) al ice: hi'' @ [0x0A])]"
proof -
  let ?r = "Str (lit ''r 1'')" and ?a = "Str (lit ''al ice'')" and ?t = "Str (lit ''hi'')"
  have h1: "\<not> existsSync env_mkdir_fails (transcriptsDir env_mkdir_fails) \<and>
            \<not> mkdirSync env_mkdir_fails (transcriptsDir env_mkdir_fails)"
    by (simp add: env_mkdir_fails_def)
  have h2: "(existsSync env_append_fails (transcriptsDir env_append_fails) \<or>
             mkdirSync env_append_fails (transcriptsDir env_append_fails)) \<and>
            \<not> appendFile env_append_fails (transcriptFile env_append_fails ?r ?a)
                 (entry env_append_fails ?a ?t)"
    by (simp add: env_append_fails_def env0_def)
  have h3: "1 < length (lit ''r 1'')" "\<not> is_safe (lit ''r 1'' ! 1)"
    by (simp_all add: lit_def is_safe_def)
  have a: "Console_warn Failed_adding_chat \<in> set (effects (sendMessage env_mkdir_fails (lit ''A'')
       ?r ?a ?t four_rooms))"
    using sendMessage_transcript [of env_mkdir_fails "lit ''A''" ?r ?a ?t four_rooms] h1 by blast
  have b: "Console_warn Failed_to_append_chat \<in> set (effects (sendMessage env_append_fails (lit ''A'')
       ?r ?a ?t four_rooms))"
    using sendMessage_transcript [of env_append_fails "lit ''A''" ?r ?a ?t four_rooms] h2 by blast
  have c: "replace_unsafe (lit ''r 1'') ! 1 = 0x5F"
    using sendMessage_transcript [of env0 "lit ''A''" ?r ?a ?t four_rooms "lit ''r 1''"] h3
    by presburger
  have d: "appends (effects (sendMessage env0 (lit ''A'') ?r ?a ?t four_rooms)) =
      [(lit ''/tmp/t/transcript-r_1-al_ice.txt'',
        lit ''[2025-01-01T00:00:00.000Z] (chat) al ice: hi'' @ [0x0A])]"
    by code_simp
  from a b c d show ?thesis by blast
qed

subsection \<open>disconnect\<close>

lemma disconnect_rooms_spec:
  assumes "set ks \<subseteq> fst ` set rs"
  shows "fst (snd (disconnect_rooms c ks rs)) =
           map (\<lambda>k. Emit (To (Str k))
             (RoomUsers (Array (filter (\<lambda>u. socketId u \<noteq> c) (members rs k))))) ks
       \<and> snd (snd (disconnect_rooms c ks rs)) = Returned
       \<and> map fst (fst (disconnect_rooms c ks rs)) = map fst rs
       \<and> (\<forall>k'. members (fst (disconnect_rooms c ks rs)) k' =
             (if k' \<in> set ks then filter (\<lambda>u. socketId u \<noteq> c) (members rs k')
              else members rs k'))"
  using assms
proof (induction ks arbitrary: rs)
  case Nil
  show ?case by simp
next
  case (Cons k ks)
  from Cons.prems obtain ms where ms: "map_of rs k = Some ms"
    by (cases "map_of rs k") (auto simp: map_of_keys)
  let ?f = "filter (\<lambda>u. socketId u \<noteq> c)"
  let ?rs1 = "rooms_set k (?f ms) rs"
  have keys: "map fst ?rs1 = map fst rs"
    using Cons.prems by (simp add: keys_rooms_set)
  then have sub: "set ks \<subseteq> fst ` set ?rs1"
    using Cons.prems by (metis list.set_map set_subset_Cons subset_trans)
  note IH = Cons.IH [OF sub]
  have mem: "members rs k = ms" using ms by (simp add: members_def)
  have get: "rooms_get rs k = Array ms" using ms by (simp add: rooms_get_def)
  have step: "disconnect_rooms c (k # ks) rs =
      (fst (disconnect_rooms c ks ?rs1),
       Emit (To (Str k)) (RoomUsers (Array (?f ms))) # fst (snd (disconnect_rooms c ks ?rs1)),
       snd (snd (disconnect_rooms c ks ?rs1)))"
    by (simp add: get rooms_get_set split: prod.splits)
  have a: "map (\<lambda>k'. Emit (To (Str k')) (RoomUsers (Array (?f (members ?rs1 k'))))) ks =
           map (\<lambda>k'. Emit (To (Str k')) (RoomUsers (Array (?f (members rs k'))))) ks"
    by (simp add: members_rooms_set mem)
  show ?case
    unfolding step using IH keys by (simp add: a mem members_rooms_set)
qed

lemma disconnect_spec:
  "disconnect c s =
     (\<lparr>onlineUsers = filter (\<lambda>u. socketId u \<noteq> c) (onlineUsers s),
       rooms = fst (disconnect_rooms c (for_in_keys (rooms s)) (rooms s))\<rparr>,
      Console_log (User_disconnected c) #
      map (\<lambda>k. Emit (To (Str k))
             (RoomUsers (Array (filter (\<lambda>u. socketId u \<noteq> c) (members (rooms s) k)))))
          (for_in_keys (rooms s)) @
      [Emit Everyone (UsersOnline (filter (\<lambda>u. socketId u \<noteq> c) (onlineUsers s)))],
      Returned)"
proof -
  have sub: "set (for_in_keys (rooms s)) \<subseteq> fst ` set (rooms s)"
    by (simp add: set_for_in_keys)
  from disconnect_rooms_spec [OF sub, of c]
  show ?thesis
    by (cases "disconnect_rooms c (for_in_keys (rooms s)) (rooms s)")
       (simp add: disconnect_def)
qed

lemma disconnect_members:
  "members (rooms (state_of (disconnect c s))) k =
     filter (\<lambda>u. socketId u \<noteq> c) (members (rooms s) k)"
proof -
  have sub: "set (for_in_keys (rooms s)) \<subseteq> fst ` set (rooms s)"
    by (simp add: set_for_in_keys)
  have "k \<notin> fst ` set (rooms s) \<Longrightarrow> members (rooms s) k = []"
    by (simp add: members_def map_of_keys [symmetric])
  moreover have "members (fst (disconnect_rooms c (for_in_keys (rooms s)) (rooms s))) k =
      (if k \<in> set (for_in_keys (rooms s))
       then filter (\<lambda>u. socketId u \<noteq> c) (members (rooms s) k) else members (rooms s) k)"
    using disconnect_rooms_spec [OF sub, of c] by blast
  ultimately show ?thesis
    by (simp add: disconnect_spec state_of_def set_for_in_keys)
qed

lemma disconnect_keys: "map fst (rooms (state_of (disconnect c s))) = map fst (rooms s)"
proof -
  have sub: "set (for_in_keys (rooms s)) \<subseteq> fst ` set (rooms s)"
    by (simp add: set_for_in_keys)
  with disconnect_rooms_spec [OF sub, of c] show ?thesis
    by (simp add: disconnect_spec state_of_def)
qed

lemma disconnect_broadcasts:
  "roomUsers_broadcasts (effects (disconnect c s)) =
     map (\<lambda>k. (Str k, Array (filter (\<lambda>u. socketId u \<noteq> c) (members (rooms s) k))))
       (for_in_keys (rooms s))"
  by (simp only: disconnect_spec effects_def fst_conv snd_conv roomUsers_broadcasts_Cons_log
      roomUsers_broadcasts_append roomUsers_broadcasts_map roomUsers_broadcasts_usersOnline
      append_Nil2)

text \<open>
  C10: on every disconnect one \<open>roomUsers\<close> broadcast goes out for each key of the rooms
  table, in the order of the \<open>for\<close>-\<open>in\<close> loop and carrying that room's list without
  the connection: as many broadcasts as the table has rooms, whether or not the connection
  was a member and whether or not the list is empty.
\<close>

theorem disconnect_every_room:
  "roomUsers_broadcasts (effects (disconnect c s)) =
     map (\<lambda>k. (Str k, Array (filter (\<lambda>u. socketId u \<noteq> c) (members (rooms s) k))))
       (for_in_keys (rooms s))
   \<and> set (for_in_keys (rooms s)) = set (map fst (rooms s))
   \<and> length (roomUsers_broadcasts (effects (disconnect c s))) = length (rooms s)"
  by (simp add: disconnect_broadcasts set_for_in_keys length_for_in_keys)

text \<open>
  C4: when the connection \<open>c\<close> is a member of exactly the rooms \<open>A\<close> and \<open>B\<close>, after
  disconnect neither room lists \<open>c\<close>, and the trace holds exactly one \<open>roomUsers\<close>
  broadcast to \<open>A\<close> and exactly one to \<open>B\<close>, each with the room's new list.
\<close>

theorem disconnect_two_rooms:
  assumes "wf_state s" and "set (rooms_of c s) = {A, B}"
  shows "c \<notin> socketId ` set (members (rooms (state_of (disconnect c s))) A)
       \<and> c \<notin> socketId ` set (members (rooms (state_of (disconnect c s))) B)
       \<and> filter (\<lambda>b. fst b = Str A) (roomUsers_broadcasts (effects (disconnect c s))) =
           [(Str A, Array (members (rooms (state_of (disconnect c s))) A))]
       \<and> filter (\<lambda>b. fst b = Str B) (roomUsers_broadcasts (effects (disconnect c s))) =
           [(Str B, Array (members (rooms (state_of (disconnect c s))) B))]"
proof -
  have d: "distinct (for_in_keys (rooms s))"
    using assms(1) by (simp add: wf_state_def distinct_for_in_keys)
  have "A \<in> set (rooms_of c s)" "B \<in> set (rooms_of c s)" using assms(2) by auto
  then have A: "A \<in> set (for_in_keys (rooms s))" and B: "B \<in> set (for_in_keys (rooms s))"
    by (auto simp: rooms_of_def set_for_in_keys)
  have 1: "c \<notin> socketId ` set (members (rooms (state_of (disconnect c s))) k)" for k
    by (auto simp: disconnect_members)
  have 2: "filter (\<lambda>b. fst b = Str k) (roomUsers_broadcasts (effects (disconnect c s))) =
           [(Str k, Array (members (rooms (state_of (disconnect c s))) k))]"
    if "k \<in> set (for_in_keys (rooms s))" for k
    by (simp add: disconnect_broadcasts filter_distinct_key [OF d that] disconnect_members)
  show ?thesis
    using 1 [of A] 1 [of B] 2 [OF A] 2 [OF B] by blast
qed

theorem disconnect_two_rooms_witness:
  "wf_state four_rooms \<and> set (rooms_of (lit ''A'') four_rooms) = {lit ''r1'', lit ''r2''}
   \<and> lit ''A'' \<notin> socketId ` set (members (rooms (state_of (disconnect (lit ''A'') four_rooms))) (lit ''r1''))
   \<and> filter (\<lambda>b. fst b = Str (lit ''r2''))
         (roomUsers_broadcasts (effects (disconnect (lit ''A'') four_rooms))) =
       [(Str (lit ''r2''), Array (members (rooms (state_of (disconnect (lit ''A'') four_rooms))) (lit ''r2'')))]"
proof -
  have h1: "wf_state four_rooms"
    by (simp add: wf_state_def four_rooms_def lit_def)
  have h2: "set (rooms_of (lit ''A'') four_rooms) = {lit ''r1'', lit ''r2''}"
    by code_simp
  from disconnect_two_rooms [OF h1 h2] h1 h2 show ?thesis by blast
qed

subsection \<open>newUser\<close>

lemma findIndex_ge: "- 1 \<le> findIndex p xs"
  by (induction xs) (auto simp: Let_def)

lemma findIndex_none: "(findIndex p xs = - 1) = (\<forall>x \<in> set xs. \<not> p x)"
proof (induction xs)
  case Nil
  show ?case by simp
next
  case (Cons a xs)
  from findIndex_ge [of p xs] have "findIndex p xs + 1 \<noteq> - 1" by linarith
  with Cons show ?case by (auto simp: Let_def)
qed

lemma findIndex_first:
  "findIndex p xs \<noteq> - 1 \<Longrightarrow>
     nat (findIndex p xs) < length xs \<and> p (xs ! nat (findIndex p xs))
     \<and> (\<forall>j < nat (findIndex p xs). \<not> p (xs ! j))"
proof (induction xs)
  case Nil
  then show ?case by simp
next
  case (Cons x xs)
  show ?case
  proof (cases "p x")
    case True
    then show ?thesis by simp
  next
    case False
    with Cons.prems have n: "findIndex p xs \<noteq> - 1" by (auto simp: Let_def)
    with findIndex_ge [of p xs] have ge: "0 \<le> findIndex p xs" by linarith
    then have i: "nat (findIndex p xs + 1) = Suc (nat (findIndex p xs))" by linarith
    from Cons.IH [OF n] False n show ?thesis
      by (auto simp: Let_def i less_Suc_eq_0_disj)
  qed
qed

text \<open>
  C8: newUser with an empty or missing \<open>userId\<close> changes nothing and emits nothing. With
  a non-empty \<open>userId\<close> it overwrites the \<open>userId\<close> of the first entry of the
  connection when there is one, appends a new entry otherwise, leaves the rooms alone, and
  then emits one \<open>usersOnline\<close> broadcast with the whole list as it now is.
\<close>

theorem newUser_identify:
  "(\<not> truthy uid \<longrightarrow> newUser c uid s = (s, [], Returned))
   \<and> (truthy uid \<longrightarrow>
        rooms (state_of (newUser c uid s)) = rooms s
        \<and> outcome_of (newUser c uid s) = Returned
        \<and> effects (newUser c uid s) =
            [Emit Everyone (UsersOnline (onlineUsers (state_of (newUser c uid s))))]
        \<and> (if c \<in> socketId ` set (onlineUsers s)
            then \<exists>i < length (onlineUsers s).
                   socketId (onlineUsers s ! i) = c
                   \<and> (\<forall>j < i. socketId (onlineUsers s ! j) \<noteq> c)
                   \<and> onlineUsers (state_of (newUser c uid s)) =
                       (onlineUsers s)[i := \<lparr>socketId = c, userId = uid\<rparr>]
            else onlineUsers (state_of (newUser c uid s)) =
                   onlineUsers s @ [\<lparr>socketId = c, userId = uid\<rparr>]))"
proof (cases "truthy uid")
  case False
  then show ?thesis by (simp add: newUser_def)
next
  case t: True
  let ?p = "\<lambda>u. socketId u = c"
  let ?i = "findIndex ?p (onlineUsers s)"
  show ?thesis
  proof (cases "?i = - 1")
    case True
    then have "c \<notin> socketId ` set (onlineUsers s)"
      by (auto simp: findIndex_none)
    with True t show ?thesis
      by (simp add: newUser_def Let_def state_of_def outcome_of_def effects_def)
  next
    case False
    from findIndex_first [OF False]
    have lt: "nat ?i < length (onlineUsers s)"
      and at: "socketId (onlineUsers s ! nat ?i) = c"
      and before: "\<forall>j < nat ?i. socketId (onlineUsers s ! j) \<noteq> c"
      by auto
    have mem: "c \<in> socketId ` set (onlineUsers s)"
      using lt at by (metis imageI nth_mem)
    have upd: "(onlineUsers s ! nat ?i)\<lparr>userId := uid\<rparr> = \<lparr>socketId = c, userId = uid\<rparr>"
      using at by (cases "onlineUsers s ! nat ?i") simp
    have st: "onlineUsers (state_of (newUser c uid s)) =
        (onlineUsers s)[nat ?i := \<lparr>socketId = c, userId = uid\<rparr>]"
      using t False by (simp add: newUser_def Let_def state_of_def upd)
    have rest: "rooms (state_of (newUser c uid s)) = rooms s"
      "outcome_of (newUser c uid s) = Returned"
      "effects (newUser c uid s) =
            [Emit Everyone (UsersOnline (onlineUsers (state_of (newUser c uid s))))]"
      using t by (simp_all add: newUser_def Let_def state_of_def outcome_of_def effects_def)
    from lt at before st have
      "\<exists>i < length (onlineUsers s). socketId (onlineUsers s ! i) = c
         \<and> (\<forall>j < i. socketId (onlineUsers s ! j) \<noteq> c)
         \<and> onlineUsers (state_of (newUser c uid s)) =
             (onlineUsers s)[i := \<lparr>socketId = c, userId = uid\<rparr>]"
      by blast
    with t mem rest show ?thesis by simp
  qed
qed

theorem newUser_identify_witness:
  "\<not> truthy (Str []) \<and> newUser (lit ''B'') (Str []) four_rooms = (four_rooms, [], Returned)
   \<and> \<not> truthy Undefined \<and> newUser (lit ''B'') Undefined four_rooms = (four_rooms, [], Returned)
   \<and> truthy (Str (lit ''u2''))
   \<and> effects (newUser (lit ''B'') (Str (lit ''u2'')) four_rooms) =
       [Emit Everyone (UsersOnline (onlineUsers (state_of (newUser (lit ''B'') (Str (lit ''u2'')) four_rooms))))]
   \<and> onlineUsers (state_of (newUser (lit ''B'') (Str (lit ''u2'')) four_rooms)) =
       [\<lparr>socketId = lit ''A'', userId = Str (lit ''u1'')\<rparr>,
        \<lparr>socketId = lit ''B'', userId = Str (lit ''u2'')\<rparr>]"
proof -
  have h1: "\<not> truthy (Str [])" "\<not> truthy Undefined" "truthy (Str (lit ''u2''))"
    by (simp_all add: lit_def)
  have v: "onlineUsers (state_of (newUser (lit ''B'') (Str (lit ''u2'')) four_rooms)) =
       [\<lparr>socketId = lit ''A'', userId = Str (lit ''u1'')\<rparr>,
        \<lparr>socketId = lit ''B'', userId = Str (lit ''u2'')\<rparr>]"
    by code_simp
  from newUser_identify [of "Str []" "lit ''B''" four_rooms]
    newUser_identify [of Undefined "lit ''B''" four_rooms]
    newUser_identify [of "Str (lit ''u2'')" "lit ''B''" four_rooms] h1 v
  show ?thesis by blast
qed

subsection \<open>Runs\<close>

lemma connection_spec:
  "connection c s =
     (s\<lparr>onlineUsers := onlineUsers s @ [\<lparr>socketId = c, userId = Str []\<rparr>]\<rparr>,
      [Console_log (User_connected c),
       Emit Everyone (UsersOnline (onlineUsers s @ [\<lparr>socketId = c, userId = Str []\<rparr>]))],
      Returned)"
  by (simp add: connection_def Let_def)

lemma run_Cons_Returned:
  "snd (snd (handle e c ev s)) = Returned \<Longrightarrow>
     state_of (run ((e, c, ev) # evs) s) = state_of (run evs (fst (handle e c ev s)))
   \<and> outcome_of (run ((e, c, ev) # evs) s) = outcome_of (run evs (fst (handle e c ev s)))"
  by (cases "handle e c ev s") (simp add: state_of_def outcome_of_def split: prod.splits)

lemma run_connects_disconnects:
  assumes "list_all connect_or_disconnect evs" and "all_disconnect evs"
  shows "socketId ` set (onlineUsers (state_of (run evs s))) \<subseteq>
           {c \<in> socketId ` set (onlineUsers s). \<not> list_ex (disconnects c) evs}
       \<and> outcome_of (run evs s) = Returned"
  using assms
proof (induction evs arbitrary: s)
  case Nil
  show ?case by (auto simp: state_of_def outcome_of_def)
next
  case (Cons x evs)
  obtain e c ev where x: "x = (e, c, ev)" by (cases x)
  from Cons.prems x consider (con) "ev = Connection" | (dis) "ev = Disconnect"
    by (cases ev) auto
  then show ?case
  proof cases
    case con
    let ?s1 = "s\<lparr>onlineUsers := onlineUsers s @ [\<lparr>socketId = c, userId = Str []\<rparr>]\<rparr>"
    have r: "snd (snd (handle e c ev s)) = Returned" "fst (handle e c ev s) = ?s1"
      by (simp_all add: con connection_spec)
    from Cons.prems x con have p: "list_all connect_or_disconnect evs" "all_disconnect evs"
      and d: "list_ex (disconnects c) evs"
      by auto
    note IH = Cons.IH [OF p, of ?s1]
    from IH d show ?thesis
      unfolding x using run_Cons_Returned [OF r(1), of evs] r(2)
      by (auto simp: con)
  next
    case dis
    let ?s1 = "fst (disconnect c s)"
    have r: "snd (snd (handle e c ev s)) = Returned" "fst (handle e c ev s) = ?s1"
      by (simp_all add: dis disconnect_spec)
    have o: "onlineUsers ?s1 = filter (\<lambda>u. socketId u \<noteq> c) (onlineUsers s)"
      by (simp add: disconnect_spec)
    from Cons.prems x dis have p: "list_all connect_or_disconnect evs" "all_disconnect evs"
      by auto
    note IH = Cons.IH [OF p, of ?s1]
    from IH show ?thesis
      unfolding x using run_Cons_Returned [OF r(1), of evs] r(2)
      by (auto simp: dis o)
  qed
qed

text \<open>
  C5: after a run of connect and disconnect events from the initial state, in which every
  connection is followed by the disconnect of the same socket, \<open>onlineUsers\<close> is empty
  (and no handler threw on the way).
\<close>

theorem registry_empty_after_all_disconnects:
  assumes "list_all connect_or_disconnect evs" and "all_disconnect evs"
  shows "onlineUsers (state_of (run evs init)) = [] \<and> outcome_of (run evs init) = Returned"
  using run_connects_disconnects [OF assms, of init] by (simp add: init_def)

theorem registry_empty_after_all_disconnects_witness:
  "list_all connect_or_disconnect three_sessions \<and> all_disconnect three_sessions
   \<and> onlineUsers (state_of (run three_sessions init)) = []"
proof -
  have h1: "list_all connect_or_disconnect three_sessions"
    by (simp add: three_sessions_def)
  have h2: "all_disconnect three_sessions"
    by (simp add: three_sessions_def lit_def)
  from registry_empty_after_all_disconnects [OF h1 h2] h1 h2 show ?thesis by blast
qed

text \<open>Only sendMessage emits \<open>message\<close> events, one for each event it handles.\<close>

lemma message_broadcasts_append:
  "message_broadcasts (xs @ ys) = message_broadcasts xs @ message_broadcasts ys"
  by (simp add: message_broadcasts_def)

lemma message_broadcasts_notify: "message_broadcasts (notify_backend e r u m i) = []"
  by (auto simp: message_broadcasts_def notify_backend_def Let_def split: option.splits)

lemma message_broadcasts_roomUsers:
  "message_broadcasts (map (\<lambda>k. Emit (To (Str k)) (RoomUsers (g k))) ks) = []"
  by (induction ks) (simp_all add: message_broadcasts_def)

lemma message_broadcasts_joinRoom:
  "message_broadcasts (effects (joinRoom e c r u m i s)) = []"
  using message_broadcasts_notify [of e r u m i]
  by (auto simp: joinRoom_def joinRoom_body_def effects_def Let_def message_broadcasts_def
      split: jsprop.splits)

lemma message_broadcasts_leaveRoom: "message_broadcasts (effects (leaveRoom c r s)) = []"
  by (auto simp: leaveRoom_def effects_def Let_def message_broadcasts_def split: jsprop.splits)

lemma message_broadcasts_disconnect: "message_broadcasts (effects (disconnect c s)) = []"
  using message_broadcasts_roomUsers
  by (simp add: disconnect_spec effects_def message_broadcasts_def)

lemma message_ids_handle:
  "message_ids (effects (handle e c ev s)) = generated_ids (e, c, ev)"
proof (cases ev)
  case (JoinRoom p)
  then show ?thesis
  proof (cases p)
    case Nullish
    with JoinRoom show ?thesis
      by (simp add: message_ids_def effects_def message_broadcasts_def)
  next
    case (Fields f)
    obtain r u m i where "f = (r, u, m, i)" by (cases f)
    with JoinRoom Fields show ?thesis
      by (simp add: message_ids_def message_broadcasts_joinRoom)
  qed
next
  case (SendMessage p)
  then show ?thesis
  proof (cases p)
    case Nullish
    with SendMessage show ?thesis
      by (simp add: message_ids_def effects_def message_broadcasts_def)
  next
    case (Fields f)
    obtain r a t where "f = (r, a, t)" by (cases f)
    with SendMessage Fields show ?thesis
      by (simp add: message_ids_def sendMessage_message)
  qed
qed (simp_all add: message_ids_def message_broadcasts_leaveRoom message_broadcasts_disconnect,
     simp_all add: connection_def newUser_def effects_def message_broadcasts_def Let_def)

lemma message_ids_run:
  "\<exists>n. message_ids (effects (run evs s)) = take n (concat (map generated_ids evs))"
proof (induction evs arbitrary: s)
  case Nil
  show ?case by (simp add: message_ids_def message_broadcasts_def effects_def)
next
  case (Cons x evs)
  obtain e c ev where x: "x = (e, c, ev)" by (cases x)
  obtain s' es out where h: "handle e c ev s = (s', es, out)" by (cases "handle e c ev s")
  from message_ids_handle [of e c ev s] h
  have ids: "message_ids es = generated_ids (e, c, ev)" by (simp add: effects_def)
  show ?case
  proof (cases out)
    case Returned
    from Cons.IH [of s'] obtain n where
      n: "message_ids (effects (run evs s')) = take n (concat (map generated_ids evs))" by blast
    have "message_ids (effects (run (x # evs) s)) =
        generated_ids (e, c, ev) @ take n (concat (map generated_ids evs))"
      using h Returned n ids
      by (auto simp: x effects_def message_ids_def message_broadcasts_append split: prod.splits)
    also have "\<dots> = take (length (generated_ids (e, c, ev)) + n)
        (concat (map generated_ids (x # evs)))"
      by (simp add: x)
    finally show ?thesis by blast
  next
    case (Threw err)
    have "message_ids (effects (run (x # evs) s)) = generated_ids (e, c, ev)"
      using h Threw ids by (simp add: x effects_def)
    also have "\<dots> = take (length (generated_ids (e, c, ev)))
        (concat (map generated_ids (x # evs)))"
      by (simp add: x)
    finally show ?thesis by blast
  qed
qed

lemma message_ids_distinct:
  "distinct (concat (map generated_ids evs)) \<Longrightarrow> distinct (message_ids (effects (run evs s)))"
  using message_ids_run [of evs s] by (metis distinct_take)

text \<open>
  C3: sendMessage emits exactly one \<open>message\<close> event, to the room \<open>roomId\<close>, whose payload
  has the four fields \<open>id\<close>, \<open>user\<close> (the author), \<open>text\<close> and \<open>timestamp\<close>: the id is
  the one that \<open>crypto.randomUUID()\<close> returned in this call, non-empty as that function
  returns it, author and text are the payload's, and the timestamp is the \<open>new Date()\<close> of
  this call, not before the call on a clock that does not run backwards. In a run, each
  message carries the identifier generated in its own event: when the generated identifiers
  are pairwise distinct, so are the identifiers of all the messages sent.
\<close>

theorem sendMessage_payload:
  assumes "randomUUID e \<noteq> []" and "entered e \<le> Date_message e"
    and "distinct (concat (map generated_ids evs))"
  shows "(\<exists>m. message_broadcasts (effects (sendMessage e c r a t s)) = [(To r, m)]
           \<and> id' m = randomUUID e \<and> id' m \<noteq> [] \<and> user m = a \<and> text' m = t
           \<and> timestamp m = Date_message e \<and> entered e \<le> timestamp m)
       \<and> distinct (message_ids (effects (run evs s0)))"
  using assms message_ids_distinct [of evs s0] by (simp add: sendMessage_message)

theorem sendMessage_payload_witness:
  "randomUUID env0 \<noteq> [] \<and> entered env0 \<le> Date_message env0
   \<and> distinct (concat (map generated_ids two_messages))
   \<and> (\<exists>m. message_broadcasts (effects (sendMessage env0 (lit ''A'') (Str (lit ''r1''))
            (Str (lit ''alice'')) (Str (lit ''hi'')) four_rooms)) = [(To (Str (lit ''r1'')), m)]
         \<and> id' m \<noteq> [] \<and> user m = Str (lit ''alice'') \<and> text' m = Str (lit ''hi'')
         \<and> entered env0 \<le> timestamp m)
   \<and> distinct (message_ids (effects (run two_messages four_rooms)))"
proof -
  have h1: "randomUUID env0 \<noteq> []" by (simp add: env0_def lit_def)
  have h2: "entered env0 \<le> Date_message env0" by (simp add: env0_def)
  have h3: "distinct (concat (map generated_ids two_messages))"
    by (simp add: two_messages_def env0_def env1_def lit_def)
  from sendMessage_payload [OF h1 h2 h3, of "lit ''A''" "Str (lit ''r1'')" "Str (lit ''alice'')"
      "Str (lit ''hi'')" four_rooms four_rooms] h1 h2 h3
  show ?thesis by blast
qed

text \<open>Every handler keeps the keys of \<open>rooms\<close> distinct, so every state of a run has them so.\<close>

lemma wf_state_init: "wf_state init"
  by (simp add: wf_state_def init_def)

lemma wf_state_joinRoom: "wf_state s \<Longrightarrow> wf_state (state_of (joinRoom e c r u m i s))"
  by (auto simp: wf_state_def joinRoom_def joinRoom_body_def state_of_def Let_def
      distinct_rooms_set split: jsprop.splits)

lemma wf_state_leaveRoom: "wf_state s \<Longrightarrow> wf_state (state_of (leaveRoom c r s))"
  by (auto simp: wf_state_def leaveRoom_def state_of_def Let_def distinct_rooms_set
      split: jsprop.splits)

lemma wf_state_handle: "wf_state s \<Longrightarrow> wf_state (state_of (handle e c ev s))"
proof (cases ev)
  case Disconnect
  assume "wf_state s"
  then show ?thesis
    using disconnect_keys [of c s] by (simp add: Disconnect wf_state_def)
next
  case (JoinRoom p)
  assume w: "wf_state s"
  show ?thesis
  proof (cases p)
    case Nullish
    with JoinRoom w show ?thesis by (simp add: state_of_def)
  next
    case (Fields f)
    obtain r u m i where "f = (r, u, m, i)" by (cases f)
    with JoinRoom Fields w show ?thesis by (simp add: wf_state_joinRoom)
  qed
next
  case (SendMessage p)
  assume w: "wf_state s"
  show ?thesis
  proof (cases p)
    case Nullish
    with SendMessage w show ?thesis by (simp add: state_of_def)
  next
    case (Fields f)
    obtain r a t where "f = (r, a, t)" by (cases f)
    with SendMessage Fields w show ?thesis by (simp add: state_of_def sendMessage_def)
  qed
qed (simp_all add: wf_state_leaveRoom,
     simp_all add: wf_state_def state_of_def connection_def newUser_def Let_def)

lemma wf_state_run: "wf_state s \<Longrightarrow> wf_state (state_of (run evs s))"
proof (induction evs arbitrary: s)
  case Nil
  then show ?case by (simp add: state_of_def)
next
  case (Cons x evs)
  obtain e c ev where x: "x = (e, c, ev)" by (cases x)
  from Cons.prems have w: "wf_state (fst (handle e c ev s))"
    using wf_state_handle [of s e c ev] by (simp add: state_of_def)
  show ?case
  proof (cases "handle e c ev s")
    case (fields s' es out)
    with w have w': "wf_state s'" by simp
    show ?thesis
    proof (cases out)
      case Returned
      with Cons.IH [OF w'] fields show ?thesis
        by (auto simp: x state_of_def split: prod.splits)
    next
      case (Threw err)
      with w' fields show ?thesis by (simp add: x state_of_def)
    qed
  qed
qed

end
